theory Spec2Isabelle
  imports Main "HOL-Library.Sublist"
begin

section \<open>Strings\<close>

text \<open>
  Python strings are modelled as \<open>string\<close>; a character stands for a code point below 256.
  \<open>isspace\<close> lists the code points below 256 that \<open>str.isspace\<close> accepts, which are the
  ones \<open>str.strip()\<close> removes.
\<close>

definition isspace :: "char \<Rightarrow> bool" where
  "isspace c = (c \<in> set [CHR 0x09, CHR 0x0A, CHR 0x0B, CHR 0x0C, CHR 0x0D,
                           CHR 0x1C, CHR 0x1D, CHR 0x1E, CHR 0x1F, CHR 0x20,
                           CHR 0x85, CHR 0xA0])"

definition strip :: "string \<Rightarrow> string" where
  "strip s = rev (dropWhile isspace (rev (dropWhile isspace s)))"

text \<open>\<open>s.split(",")\<close>: the pieces between commas; the empty string gives one empty piece.\<close>

fun split_comma :: "string \<Rightarrow> string list" where
  "split_comma [] = [[]]"
| "split_comma (c # cs) =
     (if c = CHR '','' then [] # split_comma cs
      else (case split_comma cs of
              [] \<Rightarrow> [[c]]
            | w # ws \<Rightarrow> (c # w) # ws))"

text \<open>\<open>sep.join(xs)\<close>.\<close>

fun join :: "string \<Rightarrow> string list \<Rightarrow> string" where
  "join sep [] = []"
| "join sep [x] = x"
| "join sep (x # y # ys) = x @ sep @ join sep (y # ys)"

section \<open>Documents, spans and the phrase matcher\<close>

text \<open>
  A token of a spaCy document: its verbatim text (\<open>ORTH\<close>) and whether one blank follows
  it. The tokenizer itself belongs to the library; the functions below take it as the
  parameter \<open>nlp\<close>, used for \<open>nlp(text)\<close> and for \<open>nlp.make_doc(phrase)\<close> alike.
\<close>

record token =
  orth :: string
  spacy :: bool

type_synonym doc = "token list"

definition text_with_ws :: "token \<Rightarrow> string" where
  "text_with_ws t = orth t @ (if spacy t then '' '' else [])"

definition slice :: "doc \<Rightarrow> nat \<Rightarrow> nat \<Rightarrow> doc" where
  "slice d start stop = take (stop - start) (drop start d)"

text \<open>
  \<open>doc[start:end].text\<close>: the tokens with their trailing blanks, without the blank after
  the last token.
\<close>

definition span_text :: "doc \<Rightarrow> nat \<times> nat \<Rightarrow> string" where
  "span_text d m =
     (let ts = slice d (fst m) (snd m)
      in if ts = [] then []
         else concat (map text_with_ws (butlast ts)) @ orth (last ts))"

text \<open>
  \<open>PhraseMatcher(nlp.vocab)\<close> is built without an \<open>attr\<close> argument, so it compares the
  verbatim token texts. Called on a document it returns the spans \<open>(start, end)\<close> whose
  token texts are those of a stored pattern, ordered by start and then by end, each span
  once under the single key \<open>KEY_PHRASE\<close>. Patterns without tokens are not stored.
\<close>

definition orth_seq :: "doc \<Rightarrow> string list" where
  "orth_seq d = map orth d"

definition matcher_call :: "doc list \<Rightarrow> doc \<Rightarrow> (nat \<times> nat) list" where
  "matcher_call patterns d =
     concat (map (\<lambda>start.
       concat (map (\<lambda>stop.
         if orth_seq (slice d start stop) \<in> set (map orth_seq (filter (\<lambda>p. p \<noteq> []) patterns))
         then [(start, stop)] else [])
       [Suc start ..< Suc (length d)]))
     [0 ..< length d])"

definition make_patterns :: "(string \<Rightarrow> doc) \<Rightarrow> string list \<Rightarrow> doc list" where
  "make_patterns nlp target_phrases =
     map (\<lambda>phrase. nlp (strip phrase)) (filter (\<lambda>phrase. strip phrase \<noteq> []) target_phrases)"

definition find_matches :: "(string \<Rightarrow> doc) \<Rightarrow> string \<Rightarrow> string list \<Rightarrow> (nat \<times> nat) list" where
  "find_matches nlp text target_phrases =
     (let patterns = make_patterns nlp target_phrases
      in if patterns \<noteq> [] then matcher_call patterns (nlp text) else matcher_call [] (nlp text))"

definition extract_phrases :: "(string \<Rightarrow> doc) \<Rightarrow> string \<Rightarrow> string list \<Rightarrow> string list" where
  "extract_phrases nlp text target_phrases =
     map (span_text (nlp text)) (find_matches nlp text target_phrases)"

text \<open>
  A tokenizer to run the functions on: it separates a text at blanks. On texts made of
  letters and single blanks it gives the tokens the library's English tokenizer gives.
\<close>

fun blank_tokens :: "string \<Rightarrow> string \<Rightarrow> doc" where
  "blank_tokens w [] = (if w = [] then [] else [\<lparr>orth = w, spacy = False\<rparr>])"
| "blank_tokens w (c # cs) =
     (if c = CHR '' ''
      then (if w = [] then blank_tokens [] cs
            else \<lparr>orth = w, spacy = True\<rparr> # blank_tokens [] cs)
      else blank_tokens (w @ [c]) cs)"

definition blank_nlp :: "string \<Rightarrow> doc" where
  "blank_nlp text = blank_tokens [] text"

section \<open>The window and the callbacks scheduled on it\<close>

text \<open>
  The background threads never touch a widget themselves: they pass a callback to
  \<open>app.after(0, ...)\<close> and the main loop runs it later. A callback is modelled by what it
  does to the widgets. Two lambdas read the variable \<open>e\<close> of the \<open>except Exception as e\<close>
  clause that created them; Python unbinds that variable when the clause ends, so what
  these two do depends on whether the clause is still running when the main loop calls
  them.
\<close>

datatype exn = RequestError string | UnknownValueError string | Exception string

fun str :: "exn \<Rightarrow> string" where
  "str (RequestError m) = m"
| "str (UnknownValueError m) = m"
| "str (Exception m) = m"

datatype callback =
    Start_progress
  | Stop_progress
  | Configure_persistent string
  | Configure_persistent_error exn
  | Configure_ephemeral string string
  | Configure_ephemeral_error exn
  | Insert_transcript string
  | Insert_key_phrase string

record gui =
  persistent_status_label :: string
  ephemeral_status_label :: string
  ephemeral_fg_color :: "string option"
  progress_bar :: bool
  phrase_entry :: string
  transcript_text :: string
  key_phrase_text :: string
  toggle_var :: bool

definition initial_gui :: gui where
  "initial_gui =
     \<lparr>persistent_status_label = ''Initializing...'',
      ephemeral_status_label = [],
      ephemeral_fg_color = None,
      progress_bar = False,
      phrase_entry = ''safety, start, stop, data'',
      transcript_text = [],
      key_phrase_text = [],
      toggle_var = False\<rparr>"

text \<open>
  \<open>run_callback in_handler cb ui\<close>: the main loop calls \<open>cb\<close>; \<open>in_handler\<close> tells whether the
  \<open>except\<close> clause that scheduled it is still running. Outside it the two lambdas over \<open>e\<close>
  raise \<open>NameError\<close>, which Tk reports and drops: the widgets stay as they are.
\<close>

fun run_callback :: "bool \<Rightarrow> callback \<Rightarrow> gui \<Rightarrow> gui" where
  "run_callback in_handler Start_progress ui = ui\<lparr>progress_bar := True\<rparr>"
| "run_callback in_handler Stop_progress ui = ui\<lparr>progress_bar := False\<rparr>"
| "run_callback in_handler (Configure_persistent t) ui = ui\<lparr>persistent_status_label := t\<rparr>"
| "run_callback in_handler (Configure_persistent_error e) ui =
     (if in_handler
      then ui\<lparr>persistent_status_label := ''Error loading offline model: '' @ str e\<rparr>
      else ui)"
| "run_callback in_handler (Configure_ephemeral t c) ui =
     ui\<lparr>ephemeral_status_label := t, ephemeral_fg_color := Some c\<rparr>"
| "run_callback in_handler (Configure_ephemeral_error e) ui =
     (if in_handler
      then ui\<lparr>ephemeral_status_label := ''Error: '' @ str e, ephemeral_fg_color := Some ''red''\<rparr>
      else ui)"
| "run_callback in_handler (Insert_transcript t) ui = ui\<lparr>transcript_text := transcript_text ui @ t\<rparr>"
| "run_callback in_handler (Insert_key_phrase t) ui = ui\<lparr>key_phrase_text := key_phrase_text ui @ t\<rparr>"

text \<open>The main loop runs the scheduled callbacks in the order they were scheduled.\<close>

fun run_callbacks :: "bool \<Rightarrow> callback list \<Rightarrow> gui \<Rightarrow> gui" where
  "run_callbacks in_handler [] ui = ui"
| "run_callbacks in_handler (cb # cbs) ui = run_callbacks in_handler cbs (run_callback in_handler cb ui)"

section \<open>Key phrases of a transcript\<close>

definition nl :: string where
  "nl = [CHR 0x0A]"

definition target_phrases_of :: "string \<Rightarrow> string list" where
  "target_phrases_of user_input =
     (if strip user_input \<noteq> [] then map strip (split_comma user_input)
      else [''safety reset''])"

definition process_text :: "(string \<Rightarrow> doc) \<Rightarrow> string \<Rightarrow> string \<Rightarrow> callback list" where
  "process_text nlp user_input text =
     (let target_phrases = target_phrases_of user_input;
          phrases = extract_phrases nlp text target_phrases
      in if phrases \<noteq> []
         then [Insert_key_phrase (''Key Phrases: '' @ join '', '' phrases @ nl)]
         else [Insert_key_phrase (''No key phrases detected.'' @ nl)])"

section \<open>Loading the offline model\<close>

type_synonym model = nat

record globals =
  vosk_model :: "model option"
  is_vosk_loaded :: bool

definition initial_globals :: globals where
  "initial_globals = \<lparr>vosk_model = None, is_vosk_loaded = False\<rparr>"

definition bsl :: string where
  "bsl = [CHR 0x5C]"

definition model_path :: string where
  "model_path = ''C:'' @ bsl @ ''Users'' @ bsl @ ''PC'' @ bsl @ ''Desktop'' @ bsl @ ''Python''
                 @ bsl @ ''Voice'' @ bsl @ ''vosk-model-en-us-0.42-gigaspeech''"

text \<open>
  \<open>load_vosk_model VoskModel g\<close>: one call of the function in the state \<open>g\<close> of the two
  globals. \<open>VoskModel\<close> is \<open>None\<close> when the import failed; otherwise it is the constructor
  as it behaves at this call, returning a model or raising. The result is the new state
  and the callbacks scheduled, in order.
\<close>

definition load_vosk_model ::
    "(string \<Rightarrow> exn + model) option \<Rightarrow> globals \<Rightarrow> globals \<times> callback list" where
  "load_vosk_model VoskModel g =
     (case VoskModel of
        Some construct \<Rightarrow>
          (case construct model_path of
             Inr m \<Rightarrow>
               (g\<lparr>vosk_model := Some m, is_vosk_loaded := True\<rparr>,
                [Configure_persistent ''Loading offline voice recognition model...'',
                 Start_progress,
                 Stop_progress,
                 Configure_persistent ''Offline loaded | Online available''])
           | Inl e \<Rightarrow>
               (g,
                [Configure_persistent ''Loading offline voice recognition model...'',
                 Start_progress,
                 Stop_progress,
                 Configure_persistent_error e]))
      | None \<Rightarrow> (g, [Configure_persistent ''Vosk not installed.'']))"

text \<open>Successive calls, each with the constructor as it behaves at that call.\<close>

fun load_calls :: "(string \<Rightarrow> exn + model) option list \<Rightarrow> globals \<Rightarrow> globals" where
  "load_calls [] g = g"
| "load_calls (v # vs) g = load_calls vs (fst (load_vosk_model v g))"

definition ready :: "globals \<Rightarrow> bool" where
  "ready g = (is_vosk_loaded g \<and> vosk_model g \<noteq> None)"

section \<open>Threads\<close>

text \<open>
  The threads alive besides the main one, by target, oldest first.
  \<open>threading.Thread(target=..., daemon=True).start()\<close> adds one.
\<close>

datatype target = Listen | Load_vosk_model

definition start_listening_thread :: "target list \<Rightarrow> target list" where
  "start_listening_thread alive = alive @ [Listen]"

definition load_model_in_thread :: "target list \<Rightarrow> target list" where
  "load_model_in_thread alive = alive @ [Load_vosk_model]"

text \<open>The button \<open>Start Listening\<close> pressed \<open>n\<close> times while no thread ends.\<close>

fun press_listen_button :: "nat \<Rightarrow> target list \<Rightarrow> target list" where
  "press_listen_button 0 alive = alive"
| "press_listen_button (Suc n) alive = press_listen_button n (start_listening_thread alive)"

section \<open>One listening cycle\<close>

text \<open>
  What the libraries answer during one run of \<open>listen\<close>: whether opening the microphone
  and calibrating raise, what recording gives, the converted samples, the offline
  recogniser made for a model and a rate and fed the samples, the parser of its result
  text, and the online service. Each call either gives its value or raises.
\<close>

type_synonym audio = "nat list"

type_synonym raw = "nat list"

record kaldi =
  AcceptWaveform :: bool
  Result :: string
  FinalResult :: string

record env =
  Microphone :: "exn option"
  recognizer_listen :: "exn + audio"
  get_raw_data :: "audio \<Rightarrow> nat \<Rightarrow> nat \<Rightarrow> exn + raw"
  KaldiRecognizer :: "model \<Rightarrow> nat \<Rightarrow> raw \<Rightarrow> exn + kaldi"
  json_loads :: "string \<Rightarrow> exn + (string \<times> string) list"
  recognize_google :: "audio \<Rightarrow> exn + string"

text \<open>\<open>d.get(key, default)\<close> on a parsed result.\<close>

definition dict_get :: "(string \<times> string) list \<Rightarrow> string \<Rightarrow> string \<Rightarrow> string" where
  "dict_get d k dflt = (case map_of d k of Some v \<Rightarrow> v | None \<Rightarrow> dflt)"

text \<open>The offline branch, once the model is known to be loaded.\<close>

definition offline_text :: "env \<Rightarrow> model \<Rightarrow> audio \<Rightarrow> exn + string" where
  "offline_text en m a =
     (case get_raw_data en a 16000 2 of
        Inl e \<Rightarrow> Inl e
      | Inr raw_audio \<Rightarrow>
          (case KaldiRecognizer en m 16000 raw_audio of
             Inl e \<Rightarrow> Inl e
           | Inr vosk_recognizer \<Rightarrow>
               (if AcceptWaveform vosk_recognizer
                then (case json_loads en (Result vosk_recognizer) of
                        Inl e \<Rightarrow> Inl e
                      | Inr result_dict \<Rightarrow> Inr (dict_get result_dict ''text'' []))
                else (case json_loads en (FinalResult vosk_recognizer) of
                        Inl e \<Rightarrow> Inl e
                      | Inr final_dict \<Rightarrow> Inr (dict_get final_dict ''text'' [])))))"

datatype outcome = Returned | Raised exn

text \<open>What is scheduled once the text is known, up to the end of the \<open>try\<close> block.\<close>

definition publish :: "(string \<Rightarrow> doc) \<Rightarrow> gui \<Rightarrow> string \<Rightarrow> callback list" where
  "publish nlp ui text =
     [Insert_transcript (text @ nl),
      Configure_ephemeral ''Transcription successful'' ''green'']
     @ process_text nlp (phrase_entry ui) text"

text \<open>
  The \<open>try\<close> block: the callbacks it schedules, in order, and how it ends. \<open>ui\<close> is read
  for the switch and the phrase entry, \<open>g\<close> for the two globals.
\<close>

definition listen_try :: "(string \<Rightarrow> doc) \<Rightarrow> globals \<Rightarrow> gui \<Rightarrow> env \<Rightarrow> callback list \<times> outcome" where
  "listen_try nlp g ui en =
     (case Microphone en of
        Some e \<Rightarrow> ([Start_progress], Raised e)
      | None \<Rightarrow>
          (case recognizer_listen en of
             Inl e \<Rightarrow>
               ([Start_progress, Configure_ephemeral ''Listening...'' ''blue''], Raised e)
           | Inr a \<Rightarrow>
               (if toggle_var ui
                then (if \<not> is_vosk_loaded g \<or> vosk_model g = None
                      then ([Start_progress, Configure_ephemeral ''Listening...'' ''blue'',
                             Configure_ephemeral ''Offline model not loaded yet'' ''red''],
                            Returned)
                      else (case vosk_model g of
                              None \<Rightarrow>
                                ([Start_progress, Configure_ephemeral ''Listening...'' ''blue'',
                                  Configure_ephemeral ''Offline model not loaded yet'' ''red''],
                                 Returned)
                            | Some m \<Rightarrow>
                                (case offline_text en m a of
                                   Inl e \<Rightarrow>
                                     ([Start_progress,
                                       Configure_ephemeral ''Listening...'' ''blue''], Raised e)
                                 | Inr text \<Rightarrow>
                                     ([Start_progress,
                                       Configure_ephemeral ''Listening...'' ''blue'']
                                      @ publish nlp ui text, Returned))))
                else (case recognize_google en a of
                        Inl e \<Rightarrow>
                          ([Start_progress, Configure_ephemeral ''Listening...'' ''blue''],
                           Raised e)
                      | Inr text \<Rightarrow>
                          ([Start_progress, Configure_ephemeral ''Listening...'' ''blue'']
                           @ publish nlp ui text, Returned)))))"

text \<open>The \<open>except\<close> clauses, tried in the order of the source.\<close>

fun handler :: "outcome \<Rightarrow> callback list" where
  "handler Returned = []"
| "handler (Raised (RequestError m)) = [Configure_ephemeral ''API unavailable'' ''red'']"
| "handler (Raised (UnknownValueError m)) =
     [Configure_ephemeral ''Could not understand audio'' ''red'']"
| "handler (Raised (Exception m)) = [Configure_ephemeral_error (Exception m)]"

text \<open>\<open>listen\<close>: the \<open>try\<close> block, the matching \<open>except\<close> clause, then \<open>finally\<close>.\<close>

definition listen :: "(string \<Rightarrow> doc) \<Rightarrow> globals \<Rightarrow> gui \<Rightarrow> env \<Rightarrow> callback list" where
  "listen nlp g ui en =
     (case listen_try nlp g ui en of
        (scheduled, r) \<Rightarrow> scheduled @ handler r @ [Stop_progress])"

section \<open>Concrete surroundings to run the functions in\<close>

text \<open>A constructor call that gives the model \<open>m\<close>, and one that raises.\<close>

definition construct_ok :: "model \<Rightarrow> string \<Rightarrow> exn + model" where
  "construct_ok m path = Inr m"

definition construct_fail :: "string \<Rightarrow> string \<Rightarrow> exn + model" where
  "construct_fail msg path = Inl (Exception msg)"

text \<open>
  A recording, a conversion that keeps the samples, a recogniser that does not accept the
  waveform and gives its words on \<open>FinalResult\<close>, one that accepts it and gives them on
  \<open>Result\<close>, a parser that reads the words as the entry \<open>text\<close>, and an unreachable
  online service.
\<close>

definition sample_audio :: audio where
  "sample_audio = [1, 2, 3]"

definition keep_samples :: "audio \<Rightarrow> nat \<Rightarrow> nat \<Rightarrow> exn + raw" where
  "keep_samples a rate width = Inr a"

definition finalizing_recognizer :: "model \<Rightarrow> nat \<Rightarrow> raw \<Rightarrow> exn + kaldi" where
  "finalizing_recognizer m rate data =
     Inr \<lparr>AcceptWaveform = False, Result = [], FinalResult = ''safety reset engaged''\<rparr>"

definition accepting_recognizer :: "model \<Rightarrow> nat \<Rightarrow> raw \<Rightarrow> exn + kaldi" where
  "accepting_recognizer m rate data =
     Inr \<lparr>AcceptWaveform = True, Result = ''safety reset engaged'', FinalResult = []\<rparr>"

definition words_as_text :: "string \<Rightarrow> exn + (string \<times> string) list" where
  "words_as_text s = Inr [(''text'', s)]"

definition service_down :: "audio \<Rightarrow> exn + string" where
  "service_down a = Inl (RequestError ''recognition connection failed'')"

definition working_env :: env where
  "working_env =
     \<lparr>Microphone = None,
      recognizer_listen = Inr sample_audio,
      get_raw_data = keep_samples,
      KaldiRecognizer = finalizing_recognizer,
      json_loads = words_as_text,
      recognize_google = service_down\<rparr>"

definition accepting_env :: env where
  "accepting_env = working_env\<lparr>KaldiRecognizer := accepting_recognizer\<rparr>"

definition no_microphone_env :: env where
  "no_microphone_env =
     working_env\<lparr>Microphone := Some (Exception ''No Default Input Device Available'')\<rparr>"

definition offline_gui :: gui where
  "offline_gui = initial_gui\<lparr>toggle_var := True\<rparr>"

definition loaded_globals :: globals where
  "loaded_globals = \<lparr>vosk_model = Some 1, is_vosk_loaded = True\<rparr>"

section \<open>Facts about the phrase matcher\<close>

lemma strip_Nil: "strip [] = []"
  by (simp add: strip_def)

lemma in_matcher_call:
  "(s, e) \<in> set (matcher_call ps d) \<longleftrightarrow>
     s < e \<and> e \<le> length d \<and>
     orth_seq (slice d s e) \<in> set (map orth_seq (filter (\<lambda>p. p \<noteq> []) ps))"
  by (auto simp del: upt_Suc simp: matcher_call_def split: if_splits)

lemma sorted_concat_by_key:
  assumes "\<And>s x. x \<in> set (f s) \<Longrightarrow> fst x = s"
  shows "sorted xs \<Longrightarrow> sorted (map fst (concat (map f xs)))"
proof (induction xs)
  case Nil
  then show ?case by simp
next
  case (Cons a xs)
  have 1: "sorted (map fst (f a))"
  proof -
    have "map fst (f a) = replicate (length (f a)) a"
      using assms by (intro replicate_eqI) auto
    then show ?thesis by simp
  qed
  have 2: "\<forall>x\<in>set (map fst (f a)). \<forall>y\<in>set (map fst (concat (map f xs))). x \<le> y"
    using Cons.prems assms by fastforce
  from Cons 1 2 show ?case by (simp add: sorted_append)
qed

lemma sorted_matcher_call: "sorted (map fst (matcher_call ps d))"
  unfolding matcher_call_def
  by (rule sorted_concat_by_key) (auto split: if_splits)

lemma matcher_call_no_patterns: "matcher_call [] d = []"
  by (simp add: matcher_call_def)

lemma find_matches_eq: "find_matches nlp text P = matcher_call (make_patterns nlp P) (nlp text)"
  by (simp add: find_matches_def Let_def)

lemma span_text_sublist:
  assumes "s < e" "e \<le> length d"
  shows "sublist (span_text d (s, e)) (concat (map text_with_ws d))"
proof -
  define ts where "ts = slice d s e"
  have ne: "ts \<noteq> []" using assms by (simp add: ts_def slice_def)
  have d: "d = take s d @ ts @ drop e d"
  proof -
    have "drop s d = take (e - s) (drop s d) @ drop (e - s) (drop s d)"
      by (rule append_take_drop_id[symmetric])
    moreover have "drop (e - s) (drop s d) = drop e d" using assms by simp
    ultimately have "drop s d = ts @ drop e d" by (simp add: ts_def slice_def)
    then show ?thesis by (metis append_take_drop_id)
  qed
  have ts: "ts = butlast ts @ [last ts]" using ne by simp
  have "concat (map text_with_ws ts) =
        concat (map text_with_ws (butlast ts)) @ text_with_ws (last ts)"
    by (subst ts) simp
  then have c: "concat (map text_with_ws ts) =
        span_text d (s, e) @ (if spacy (last ts) then '' '' else [])"
    using ne by (simp add: span_text_def ts_def[symmetric] text_with_ws_def)
  have "concat (map text_with_ws d) =
        concat (map text_with_ws (take s d)) @ concat (map text_with_ws ts)
        @ concat (map text_with_ws (drop e d))"
    by (subst d) simp
  then have "concat (map text_with_ws d) =
        concat (map text_with_ws (take s d)) @ span_text d (s, e)
        @ ((if spacy (last ts) then '' '' else []) @ concat (map text_with_ws (drop e d)))"
    by (simp add: c)
  then show ?thesis unfolding sublist_def by blast
qed

lemma in_find_matches:
  "(s, e) \<in> set (find_matches nlp text P) \<longleftrightarrow>
     s < e \<and> e \<le> length (nlp text) \<and>
     (\<exists>p\<in>set P. strip p \<noteq> [] \<and> orth_seq (slice (nlp text) s e) = orth_seq (nlp (strip p)))"
proof -
  have "\<And>x. s < e \<Longrightarrow> e \<le> length (nlp text) \<Longrightarrow> orth_seq (slice (nlp text) s e) = orth_seq x \<Longrightarrow> x \<noteq> []"
    by (auto simp: orth_seq_def slice_def)
  then show ?thesis
    unfolding find_matches_eq in_matcher_call
    by (auto simp: make_patterns_def)
qed

lemma no_patterns_no_phrases:
  assumes "\<forall>p\<in>set target_phrases. strip p = []"
  shows "extract_phrases nlp text target_phrases = []"
proof -
  have "filter (\<lambda>phrase. strip phrase \<noteq> []) target_phrases = []"
    using assms by (simp add: filter_empty_conv)
  then have "make_patterns nlp target_phrases = []" by (simp add: make_patterns_def)
  then show ?thesis
    by (simp add: extract_phrases_def find_matches_def matcher_call_no_patterns)
qed

lemmas ev = extract_phrases_def find_matches_def make_patterns_def matcher_call_def blank_nlp_def strip_def isspace_def orth_seq_def slice_def span_text_def text_with_ws_def

lemma strip_safety_reset: "strip ''safety reset'' = ''safety reset''"
  by (simp add: strip_def isspace_def)

section \<open>Claims about the phrase matcher\<close>

text \<open>
  C1, as the code has it: the matcher compares the verbatim token texts, so it reports a
  match at every span of consecutive tokens of the text whose token texts are exactly
  those of a non-blank target phrase, and the span's text is among the phrases returned.
  Letter case counts: a differently capitalised span is no match.
\<close>

theorem verbatim_span_is_matched:
  assumes "p \<in> set target_phrases" and "strip p \<noteq> []"
    and "start < stop" and "stop \<le> length (nlp text)"
    and "orth_seq (slice (nlp text) start stop) = orth_seq (nlp (strip p))"
  shows "(start, stop) \<in> set (find_matches nlp text target_phrases) \<and>
         span_text (nlp text) (start, stop) \<in> set (extract_phrases nlp text target_phrases)"
proof -
  have "(start, stop) \<in> set (find_matches nlp text target_phrases)"
    using assms unfolding in_find_matches by blast
  then show ?thesis by (simp add: extract_phrases_def)
qed

text \<open>The theorem at the text ``Please do a safety reset now'' and the span of tokens 3 and 4.\<close>

theorem verbatim_span_is_matched_witness:
  "''safety reset'' \<in> set [''safety reset''] \<and> strip ''safety reset'' \<noteq> [] \<and> (3::nat) < 5 \<and>
   5 \<le> length (blank_nlp ''Please do a safety reset now'') \<and>
   orth_seq (slice (blank_nlp ''Please do a safety reset now'') 3 5) = orth_seq (blank_nlp (strip ''safety reset'')) \<and>
   (3, 5) \<in> set (find_matches blank_nlp ''Please do a safety reset now'' [''safety reset'']) \<and>
   span_text (blank_nlp ''Please do a safety reset now'') (3, 5)
     \<in> set (extract_phrases blank_nlp ''Please do a safety reset now'' [''safety reset''])"
proof -
  have h1: "''safety reset'' \<in> set [''safety reset'']" by simp
  have h2: "strip ''safety reset'' \<noteq> []" by (simp add: strip_def isspace_def)
  have h3: "(3::nat) < 5" by simp
  have h4: "5 \<le> length (blank_nlp ''Please do a safety reset now'')" by (simp add: blank_nlp_def)
  have h5: "orth_seq (slice (blank_nlp ''Please do a safety reset now'') 3 5) = orth_seq (blank_nlp (strip ''safety reset''))"
    by (simp add: blank_nlp_def strip_def isspace_def orth_seq_def slice_def)
  from verbatim_span_is_matched [OF h1 h2 h3 h4 h5] h1 h2 h3 h4 h5 show ?thesis by blast
qed

text \<open>
  C1 as stated fails: the text ``Safety Reset'' gives no match for the target phrase
  ``safety reset''.
\<close>

theorem capitalised_text_not_matched:
  "extract_phrases blank_nlp ''Safety Reset'' [''safety reset''] = []"
  by (simp add: ev)

text \<open>
  C6: when the tokens of the text, each with its trailing blank, spell the text, the
  phrases returned are the texts of the matched spans in the order of the matches; the
  matches are ordered by where they start; every match is a non-empty span within the
  document whose text occurs in the text as it is written there, and whose token texts
  are those of some non-blank target phrase (equal verbatim, hence also after any
  normalisation of both).
\<close>

theorem matches_are_ordered_substrings:
  assumes "concat (map text_with_ws (nlp text)) = text"
  shows "extract_phrases nlp text P = map (span_text (nlp text)) (find_matches nlp text P) \<and>
         sorted (map fst (find_matches nlp text P)) \<and>
         (\<forall>m\<in>set (find_matches nlp text P).
            fst m < snd m \<and> snd m \<le> length (nlp text) \<and>
            sublist (span_text (nlp text) m) text \<and>
            (\<exists>p\<in>set P. strip p \<noteq> [] \<and>
               orth_seq (slice (nlp text) (fst m) (snd m)) = orth_seq (nlp (strip p))))"
proof (intro conjI ballI)
  show "extract_phrases nlp text P = map (span_text (nlp text)) (find_matches nlp text P)"
    by (simp add: extract_phrases_def)
  show "sorted (map fst (find_matches nlp text P))"
    by (simp add: find_matches_eq sorted_matcher_call)
next
  fix m assume "m \<in> set (find_matches nlp text P)"
  then have m: "(fst m, snd m) \<in> set (find_matches nlp text P)" by simp
  then show "fst m < snd m" and "snd m \<le> length (nlp text)"
    and "\<exists>p\<in>set P. strip p \<noteq> [] \<and>
               orth_seq (slice (nlp text) (fst m) (snd m)) = orth_seq (nlp (strip p))"
    unfolding in_find_matches by blast+
  then have "sublist (span_text (nlp text) (fst m, snd m)) (concat (map text_with_ws (nlp text)))"
    by (intro span_text_sublist)
  then show "sublist (span_text (nlp text) m) text" using assms by simp
qed

text \<open>The theorem at the text ``Reset now safety reset'' and the phrases ``safety reset'', ``now''.\<close>

theorem matches_are_ordered_substrings_witness:
  "concat (map text_with_ws (blank_nlp ''Reset now safety reset'')) = ''Reset now safety reset'' \<and>
   extract_phrases blank_nlp ''Reset now safety reset'' [''safety reset'', ''now'']
     = [''now'', ''safety reset''] \<and>
   find_matches blank_nlp ''Reset now safety reset'' [''safety reset'', ''now'']
     = [(1, 2), (2, 4)] \<and>
   sorted (map fst (find_matches blank_nlp ''Reset now safety reset'' [''safety reset'', ''now''])) \<and>
   sublist (span_text (blank_nlp ''Reset now safety reset'') (2, 4)) ''Reset now safety reset''"
proof -
  have h: "concat (map text_with_ws (blank_nlp ''Reset now safety reset'')) = ''Reset now safety reset''"
    by (simp add: blank_nlp_def text_with_ws_def)
  have r: "extract_phrases blank_nlp ''Reset now safety reset'' [''safety reset'', ''now'']
     = [''now'', ''safety reset'']"
    by (simp add: ev)
  have f: "find_matches blank_nlp ''Reset now safety reset'' [''safety reset'', ''now'']
     = [(1, 2), (2, 4)]"
    by (simp add: ev)
  note w = matches_are_ordered_substrings
    [of blank_nlp "''Reset now safety reset''" "[''safety reset'', ''now'']", OF h]
  from w have s: "sorted (map fst
      (find_matches blank_nlp ''Reset now safety reset'' [''safety reset'', ''now'']))"
    by blast
  have "(2, 4) \<in> set (find_matches blank_nlp ''Reset now safety reset'' [''safety reset'', ''now''])"
    by (simp add: f)
  with w have b: "sublist (span_text (blank_nlp ''Reset now safety reset'') (2, 4))
      ''Reset now safety reset''"
    by blast
  from h r f s b show ?thesis by blast
qed

text \<open>
  C7: with an empty phrase list, or one whose entries are all empty after stripping, no
  phrase is returned, for every text.
\<close>

theorem blank_phrases_give_no_match:
  assumes "\<forall>p\<in>set target_phrases. strip p = []"
  shows "extract_phrases nlp text target_phrases = []"
  using assms by (rule no_patterns_no_phrases)

text \<open>The theorem at the lists \<open>["", "  "]\<close> and \<open>[]\<close>.\<close>

theorem blank_phrases_give_no_match_witness:
  "strip [] = [] \<and> strip ''  '' = [] \<and>
   extract_phrases blank_nlp ''Please do a safety reset now'' ['''', ''  ''] = [] \<and>
   extract_phrases blank_nlp ''Please do a safety reset now'' [] = []"
proof -
  have s1: "strip [] = []" by (simp add: strip_def)
  have s2: "strip ''  '' = []" by (simp add: strip_def isspace_def)
  have h: "\<forall>p\<in>set ['''', ''  '']. strip p = []" using s1 s2 by simp
  have h0: "\<forall>p\<in>set ([]::string list). strip p = []" by simp
  from blank_phrases_give_no_match [OF h] blank_phrases_give_no_match [OF h0] s1 s2
  show ?thesis by blast
qed

section \<open>Claims about the phrase input\<close>

text \<open>
  C8: when the phrase input is empty after stripping, the target phrases are the single
  phrase ``safety reset''; every span of the transcript whose token texts are those of
  ``safety reset'' is then among the phrases returned, and the transcript
  ``safety reset engaged'' yields exactly ``safety reset''.
\<close>

theorem blank_input_uses_default_phrase:
  assumes "strip user_input = []"
  shows "target_phrases_of user_input = [''safety reset''] \<and>
         (\<forall>start stop. start < stop \<and> stop \<le> length (nlp text) \<and>
              orth_seq (slice (nlp text) start stop) = orth_seq (nlp ''safety reset'')
            \<longrightarrow> span_text (nlp text) (start, stop)
                  \<in> set (extract_phrases nlp text (target_phrases_of user_input))) \<and>
         extract_phrases blank_nlp ''safety reset engaged'' (target_phrases_of user_input)
           = [''safety reset''] \<and>
         process_text blank_nlp user_input ''safety reset engaged''
           = [Insert_key_phrase (''Key Phrases: safety reset'' @ nl)]"
proof -
  have t: "target_phrases_of user_input = [''safety reset'']"
    using assms by (simp add: target_phrases_of_def)
  have m: "\<forall>start stop. start < stop \<and> stop \<le> length (nlp text) \<and>
              orth_seq (slice (nlp text) start stop) = orth_seq (nlp ''safety reset'')
            \<longrightarrow> span_text (nlp text) (start, stop)
                  \<in> set (extract_phrases nlp text [''safety reset''])"
  proof (intro allI impI)
    fix start stop
    assume "start < stop \<and> stop \<le> length (nlp text) \<and>
              orth_seq (slice (nlp text) start stop) = orth_seq (nlp ''safety reset'')"
    then have "(start, stop) \<in> set (find_matches nlp text [''safety reset''])"
      unfolding in_find_matches by (simp add: strip_safety_reset)
    then show "span_text (nlp text) (start, stop) \<in> set (extract_phrases nlp text [''safety reset''])"
      by (simp add: extract_phrases_def)
  qed
  have e: "extract_phrases blank_nlp ''safety reset engaged'' [''safety reset''] = [''safety reset'']"
    by (simp add: ev)
  have p: "process_text blank_nlp user_input ''safety reset engaged''
           = [Insert_key_phrase (''Key Phrases: safety reset'' @ nl)]"
    by (simp add: process_text_def t e)
  from t m e p show ?thesis by simp
qed

text \<open>The theorem at an input of three blanks.\<close>

theorem blank_input_uses_default_phrase_witness:
  "strip ''   '' = [] \<and>
   target_phrases_of ''   '' = [''safety reset''] \<and>
   (0::nat) < 2 \<and> 2 \<le> length (blank_nlp ''safety reset engaged'') \<and>
   orth_seq (slice (blank_nlp ''safety reset engaged'') 0 2) = orth_seq (blank_nlp ''safety reset'') \<and>
   span_text (blank_nlp ''safety reset engaged'') (0, 2)
     \<in> set (extract_phrases blank_nlp ''safety reset engaged'' (target_phrases_of ''   '')) \<and>
   extract_phrases blank_nlp ''safety reset engaged'' (target_phrases_of ''   '') = [''safety reset''] \<and>
   process_text blank_nlp ''   '' ''safety reset engaged''
     = [Insert_key_phrase (''Key Phrases: safety reset'' @ nl)]"
proof -
  have h: "strip ''   '' = []" by (simp add: strip_def isspace_def)
  have a1: "(0::nat) < 2" by simp
  have a2: "2 \<le> length (blank_nlp ''safety reset engaged'')" by (simp add: blank_nlp_def)
  have a3: "orth_seq (slice (blank_nlp ''safety reset engaged'') 0 2)
      = orth_seq (blank_nlp ''safety reset'')"
    by (simp add: blank_nlp_def orth_seq_def slice_def)
  note w = blank_input_uses_default_phrase [OF h, of blank_nlp "''safety reset engaged''"]
  from w a1 a2 a3 have m: "span_text (blank_nlp ''safety reset engaged'') (0, 2)
     \<in> set (extract_phrases blank_nlp ''safety reset engaged'' (target_phrases_of ''   ''))"
    by blast
  from w h a1 a2 a3 m show ?thesis by blast
qed

text \<open>
  C10: when the phrase input is not blank but every piece between its commas is blank, the
  default phrase is not used; the target phrases are all empty, nothing is matched
  whatever the transcript, and the key phrase box receives ``No key phrases detected.''
\<close>

theorem commas_only_input_detects_nothing:
  assumes "strip user_input \<noteq> []" and "\<forall>p\<in>set (split_comma user_input). strip p = []"
  shows "target_phrases_of user_input = map strip (split_comma user_input) \<and>
         target_phrases_of user_input \<noteq> [''safety reset''] \<and>
         extract_phrases nlp text (target_phrases_of user_input) = [] \<and>
         process_text nlp user_input text = [Insert_key_phrase (''No key phrases detected.'' @ nl)] \<and>
         key_phrase_text (run_callbacks b (process_text nlp user_input text) ui)
           = key_phrase_text ui @ ''No key phrases detected.'' @ nl"
proof -
  have t: "target_phrases_of user_input = map strip (split_comma user_input)"
    using assms(1) by (simp add: target_phrases_of_def)
  have a: "\<forall>p\<in>set (target_phrases_of user_input). p = []"
    using assms(2) by (simp add: t)
  then have n: "target_phrases_of user_input \<noteq> [''safety reset'']" by auto
  have "\<forall>p\<in>set (target_phrases_of user_input). strip p = []"
    using a by (auto simp: strip_Nil)
  then have e: "extract_phrases nlp text (target_phrases_of user_input) = []"
    by (rule no_patterns_no_phrases)
  then have p: "process_text nlp user_input text = [Insert_key_phrase (''No key phrases detected.'' @ nl)]"
    by (simp add: process_text_def)
  from t n e p show ?thesis by simp
qed

text \<open>The theorem at the input \<open>" , , "\<close>.\<close>

theorem commas_only_input_detects_nothing_witness:
  "strip '' , , '' = '', ,'' \<and> map strip (split_comma '' , , '') = ['''', '''', ''''] \<and>
   target_phrases_of '' , , '' = ['''', '''', ''''] \<and>
   extract_phrases blank_nlp ''safety reset engaged'' (target_phrases_of '' , , '') = [] \<and>
   process_text blank_nlp '' , , '' ''safety reset engaged''
     = [Insert_key_phrase (''No key phrases detected.'' @ nl)] \<and>
   key_phrase_text (run_callbacks False (process_text blank_nlp '' , , '' ''safety reset engaged'') initial_gui)
     = ''No key phrases detected.'' @ nl"
proof -
  have h0: "strip '' , , '' = '', ,''" by (simp add: strip_def isspace_def)
  have h1: "strip '' , , '' \<noteq> []" by (simp add: h0)
  have h2: "\<forall>p\<in>set (split_comma '' , , ''). strip p = []" by (simp add: strip_def isspace_def)
  have s: "map strip (split_comma '' , , '') = ['''', '''', '''']" by (simp add: strip_def isspace_def)
  have k: "key_phrase_text initial_gui = []" by (simp add: initial_gui_def)
  note w = commas_only_input_detects_nothing
    [OF h1 h2, of blank_nlp "''safety reset engaged''" False initial_gui]
  have c1: "target_phrases_of '' , , '' = ['''', '''', '''']"
    using w s by metis
  have c2: "extract_phrases blank_nlp ''safety reset engaged'' (target_phrases_of '' , , '') = []"
    using w by metis
  have c3: "process_text blank_nlp '' , , '' ''safety reset engaged''
     = [Insert_key_phrase (''No key phrases detected.'' @ nl)]"
    using w by metis
  have c4: "key_phrase_text
      (run_callbacks False (process_text blank_nlp '' , , '' ''safety reset engaged'') initial_gui)
     = ''No key phrases detected.'' @ nl"
    using w k by (metis append_Nil)
  from h0 s c1 c2 c3 c4 show ?thesis by blast
qed

section \<open>Claims about a listening cycle\<close>

lemma run_callbacks_append:
  "run_callbacks b (xs @ ys) ui = run_callbacks b ys (run_callbacks b xs ui)"
  by (induction xs arbitrary: ui) auto

lemma handler_keeps_transcript:
  "transcript_text (run_callbacks b (handler r) ui) = transcript_text ui"
proof (cases r)
  case Returned
  then show ?thesis by simp
next
  case (Raised e)
  then show ?thesis by (cases e) auto
qed

lemmas envs = working_env_def accepting_env_def no_microphone_env_def offline_gui_def
  loaded_globals_def initial_gui_def initial_globals_def keep_samples_def
  finalizing_recognizer_def accepting_recognizer_def words_as_text_def service_down_def
  sample_audio_def

text \<open>
  C3 as stated fails: not every cycle with the offline switch on and the model not loaded
  reports that the model is not loaded. The test of the model comes after the microphone
  has been opened and the recording made; with no input device the cycle leaves the \<open>try\<close>
  block before that test, and the status ``Offline model not loaded yet'' is never
  scheduled: the label keeps its text, or shows the text of the device error, according to
  when the scheduled callback runs.
\<close>

theorem offline_without_microphone_reports_no_model_status:
  "toggle_var offline_gui \<and> is_vosk_loaded initial_globals = False \<and>
   vosk_model initial_globals = None \<and>
   listen blank_nlp initial_globals offline_gui no_microphone_env =
     [Start_progress,
      Configure_ephemeral_error (Exception ''No Default Input Device Available''),
      Stop_progress] \<and>
   ephemeral_status_label
     (run_callbacks False (listen blank_nlp initial_globals offline_gui no_microphone_env)
        offline_gui) = [] \<and>
   ephemeral_fg_color
     (run_callbacks False (listen blank_nlp initial_globals offline_gui no_microphone_env)
        offline_gui) = None \<and>
   ephemeral_status_label
     (run_callbacks True (listen blank_nlp initial_globals offline_gui no_microphone_env)
        offline_gui) = ''Error: No Default Input Device Available''"
proof -
  have l: "listen blank_nlp initial_globals offline_gui no_microphone_env =
     [Start_progress,
      Configure_ephemeral_error (Exception ''No Default Input Device Available''),
      Stop_progress]"
    by (simp add: listen_def listen_try_def no_microphone_env_def working_env_def)
  show ?thesis unfolding l
    by (simp add: offline_gui_def initial_gui_def initial_globals_def)
qed

text \<open>
  C3, as the code has it: a cycle with the offline switch on, while the model is not
  loaded, appends nothing to the transcript, whatever else happens in it and whenever its
  callbacks run; and when the microphone opens and the recording succeeds, the cycle
  schedules, after ``Listening...'', the status ``Offline model not loaded yet'' in red and
  nothing else but the stop of the progress bar, so that the label ends with that text in
  red and the progress bar is stopped.
\<close>

theorem offline_without_model_fails_fast:
  assumes "toggle_var ui" and "\<not> is_vosk_loaded g \<or> vosk_model g = None"
  shows "transcript_text (run_callbacks b (listen nlp g ui en) ui) = transcript_text ui \<and>
         (Microphone en = None \<and> recognizer_listen en = Inr a \<longrightarrow>
            listen nlp g ui en =
              [Start_progress, Configure_ephemeral ''Listening...'' ''blue'',
               Configure_ephemeral ''Offline model not loaded yet'' ''red'', Stop_progress] \<and>
            ephemeral_status_label (run_callbacks b (listen nlp g ui en) ui)
              = ''Offline model not loaded yet'' \<and>
            ephemeral_fg_color (run_callbacks b (listen nlp g ui en) ui) = Some ''red'' \<and>
            progress_bar (run_callbacks b (listen nlp g ui en) ui) = False)"
proof (intro conjI impI)
  obtain cbs r where t: "listen_try nlp g ui en = (cbs, r)" by (cases "listen_try nlp g ui en")
  have c: "transcript_text (run_callbacks b cbs ui) = transcript_text ui"
    using t assms
    by (auto simp: listen_try_def split: option.splits sum.splits if_splits)
  show "transcript_text (run_callbacks b (listen nlp g ui en) ui) = transcript_text ui"
    by (simp add: listen_def t run_callbacks_append handler_keeps_transcript c)
next
  assume ok: "Microphone en = None \<and> recognizer_listen en = Inr a"
  show l: "listen nlp g ui en =
              [Start_progress, Configure_ephemeral ''Listening...'' ''blue'',
               Configure_ephemeral ''Offline model not loaded yet'' ''red'', Stop_progress]"
    using assms ok by (auto simp: listen_def listen_try_def)
  show "ephemeral_status_label (run_callbacks b (listen nlp g ui en) ui)
              = ''Offline model not loaded yet''" by (simp add: l)
  show "ephemeral_fg_color (run_callbacks b (listen nlp g ui en) ui) = Some ''red''"
    by (simp add: l)
  show "progress_bar (run_callbacks b (listen nlp g ui en) ui) = False" by (simp add: l)
qed

text \<open>The theorem at the start of the program with the switch on.\<close>

theorem offline_without_model_fails_fast_witness:
  "toggle_var offline_gui \<and> vosk_model initial_globals = None \<and>
   Microphone working_env = None \<and> recognizer_listen working_env = Inr sample_audio \<and>
   listen blank_nlp initial_globals offline_gui working_env =
     [Start_progress, Configure_ephemeral ''Listening...'' ''blue'',
      Configure_ephemeral ''Offline model not loaded yet'' ''red'', Stop_progress] \<and>
   transcript_text
     (run_callbacks False (listen blank_nlp initial_globals offline_gui working_env) offline_gui)
     = transcript_text offline_gui"
proof -
  have h1: "toggle_var offline_gui" by (simp add: envs)
  have n: "vosk_model initial_globals = None" by (simp add: envs)
  then have h2: "\<not> is_vosk_loaded initial_globals \<or> vosk_model initial_globals = None"
    by simp
  have h3: "Microphone working_env = None" by (simp add: working_env_def)
  have h4: "recognizer_listen working_env = Inr sample_audio" by (simp add: working_env_def)
  note w = offline_without_model_fails_fast [OF h1 h2, of False blank_nlp working_env sample_audio]
  from w h1 n h3 h4 show ?thesis by blast
qed

text \<open>
  C9: with the offline switch on and the model loaded, the recording is converted at
  16000 Hz and width 2, the recogniser is made for the rate 16000 and fed the converted
  samples, and the cycle is determined by the parsed terminal result alone, which is
  \<open>Result()\<close> when the waveform was accepted and \<open>FinalResult()\<close> otherwise: the transcript
  receives its entry \<open>text\<close> (empty when absent) and the key phrases are taken from
  it, the same on both paths.
\<close>

theorem offline_text_from_terminal_result:
  assumes "toggle_var ui" and "is_vosk_loaded g" and "vosk_model g = Some m"
    and "Microphone en = None" and "recognizer_listen en = Inr a"
    and "get_raw_data en a 16000 2 = Inr raw_audio"
    and "KaldiRecognizer en m 16000 raw_audio = Inr k"
    and "json_loads en (if AcceptWaveform k then Result k else FinalResult k) = Inr d"
  shows "listen nlp g ui en =
           [Start_progress, Configure_ephemeral ''Listening...'' ''blue'',
            Insert_transcript (dict_get d ''text'' [] @ nl),
            Configure_ephemeral ''Transcription successful'' ''green'']
           @ process_text nlp (phrase_entry ui) (dict_get d ''text'' [])
           @ [Stop_progress]"
  using assms
  by (auto simp: listen_def listen_try_def offline_text_def publish_def split: if_splits)

text \<open>
  The theorem at a recogniser that needs \<open>FinalResult()\<close> and at one that accepts the
  waveform: both give the same cycle.
\<close>

theorem offline_text_from_terminal_result_witness:
  "listen blank_nlp loaded_globals offline_gui working_env =
     [Start_progress, Configure_ephemeral ''Listening...'' ''blue'',
      Insert_transcript (''safety reset engaged'' @ nl),
      Configure_ephemeral ''Transcription successful'' ''green'',
      Insert_key_phrase (''Key Phrases: safety'' @ nl),
      Stop_progress] \<and>
   listen blank_nlp loaded_globals offline_gui accepting_env
     = listen blank_nlp loaded_globals offline_gui working_env"
proof -
  have h1: "toggle_var offline_gui" by (simp add: envs)
  have h2: "is_vosk_loaded loaded_globals" by (simp add: envs)
  have h3: "vosk_model loaded_globals = Some 1" by (simp add: envs)
  have h4: "Microphone working_env = None" by (simp add: envs)
  have h5: "recognizer_listen working_env = Inr sample_audio" by (simp add: working_env_def)
  have h6: "get_raw_data working_env sample_audio 16000 2 = Inr sample_audio" by (simp add: envs)
  have h7: "KaldiRecognizer working_env 1 16000 sample_audio =
     Inr \<lparr>AcceptWaveform = False, Result = [], FinalResult = ''safety reset engaged''\<rparr>"
    by (simp add: envs)
  have h8: "json_loads working_env
      (if AcceptWaveform \<lparr>AcceptWaveform = False, Result = [], FinalResult = ''safety reset engaged''\<rparr>
       then Result \<lparr>AcceptWaveform = False, Result = [], FinalResult = ''safety reset engaged''\<rparr>
       else FinalResult \<lparr>AcceptWaveform = False, Result = [], FinalResult = ''safety reset engaged''\<rparr>)
     = Inr [(''text'', ''safety reset engaged'')]"
    by (simp add: envs)
  have a4: "Microphone accepting_env = None" by (simp add: envs)
  have a5: "recognizer_listen accepting_env = Inr sample_audio" by (simp add: envs)
  have a6: "get_raw_data accepting_env sample_audio 16000 2 = Inr sample_audio" by (simp add: envs)
  have a7: "KaldiRecognizer accepting_env 1 16000 sample_audio =
     Inr \<lparr>AcceptWaveform = True, Result = ''safety reset engaged'', FinalResult = []\<rparr>"
    by (simp add: envs)
  have a8: "json_loads accepting_env
      (if AcceptWaveform \<lparr>AcceptWaveform = True, Result = ''safety reset engaged'', FinalResult = []\<rparr>
       then Result \<lparr>AcceptWaveform = True, Result = ''safety reset engaged'', FinalResult = []\<rparr>
       else FinalResult \<lparr>AcceptWaveform = True, Result = ''safety reset engaged'', FinalResult = []\<rparr>)
     = Inr [(''text'', ''safety reset engaged'')]"
    by (simp add: envs)
  note w = offline_text_from_terminal_result [OF h1 h2 h3 h4 h5 h6 h7 h8, of blank_nlp]
  note v = offline_text_from_terminal_result [OF h1 h2 h3 a4 a5 a6 a7 a8, of blank_nlp]
  have p: "process_text blank_nlp (phrase_entry offline_gui) ''safety reset engaged''
      = [Insert_key_phrase (''Key Phrases: safety'' @ nl)]"
    by (simp add: process_text_def target_phrases_of_def ev offline_gui_def initial_gui_def)
  have g: "dict_get [(''text'', ''safety reset engaged'')] ''text'' [] = ''safety reset engaged''"
    by (simp add: dict_get_def)
  from w v p g show ?thesis by simp
qed

text \<open>
  An online cycle whose service call raises \<open>RequestError\<close> schedules the status
  ``API unavailable'' in red and nothing for the transcript.
\<close>

lemma service_unavailable_reported:
  assumes "\<not> toggle_var ui" and "Microphone en = None" and "recognizer_listen en = Inr a"
    and "recognize_google en a = Inl (RequestError m)"
  shows "listen nlp g ui en =
           [Start_progress, Configure_ephemeral ''Listening...'' ''blue'',
            Configure_ephemeral ''API unavailable'' ''red'', Stop_progress]"
  using assms by (simp add: listen_def listen_try_def)

text \<open>
  C4 at a cycle whose microphone cannot be opened: the \<open>except Exception as e\<close> clause
  schedules a callback that reads \<open>e\<close>. Run after the clause has ended, the callback
  changes nothing: the status label keeps its text and no error is shown. Only when the
  main loop runs it while the clause is still active does the label show the error.
\<close>

theorem generic_error_status_is_lost:
  "listen blank_nlp initial_globals initial_gui no_microphone_env =
     [Start_progress,
      Configure_ephemeral_error (Exception ''No Default Input Device Available''),
      Stop_progress] \<and>
   ephemeral_status_label
     (run_callbacks False (listen blank_nlp initial_globals initial_gui no_microphone_env) initial_gui)
     = ephemeral_status_label initial_gui \<and>
   ephemeral_fg_color
     (run_callbacks False (listen blank_nlp initial_globals initial_gui no_microphone_env) initial_gui)
     = None \<and>
   ephemeral_status_label
     (run_callbacks True (listen blank_nlp initial_globals initial_gui no_microphone_env) initial_gui)
     = ''Error: No Default Input Device Available''"
proof -
  have l: "listen blank_nlp initial_globals initial_gui no_microphone_env =
     [Start_progress,
      Configure_ephemeral_error (Exception ''No Default Input Device Available''),
      Stop_progress]"
    by (simp add: listen_def listen_try_def no_microphone_env_def working_env_def)
  show ?thesis unfolding l by (simp add: initial_gui_def)
qed

section \<open>Claims about starting cycles and loads\<close>

lemma count_start_listening_thread:
  "count_list (start_listening_thread alive) Listen = Suc (count_list alive Listen)"
  by (simp add: start_listening_thread_def)

text \<open>
  C2 as stated fails: with one listening thread alive, \<open>start_listening_thread\<close> starts a
  second one.
\<close>

theorem second_press_starts_second_cycle:
  "start_listening_thread [Listen] = [Listen, Listen]"
  by (simp add: start_listening_thread_def)

text \<open>
  C2, as the code has it: \<open>start_listening_thread\<close> has no guard, so every press of the
  button adds a listening thread, whatever is alive: after \<open>n\<close> presses there are \<open>n\<close> more.
\<close>

theorem every_press_starts_a_cycle:
  "count_list (press_listen_button n alive) Listen = count_list alive Listen + n"
  by (induction n arbitrary: alive) (simp_all add: count_start_listening_thread)

lemma ready_load_vosk_model: "ready g \<Longrightarrow> ready (fst (load_vosk_model v g))"
  by (auto simp: ready_def load_vosk_model_def split: option.splits sum.splits)

lemma loaded_load_vosk_model: "is_vosk_loaded g \<Longrightarrow> is_vosk_loaded (fst (load_vosk_model v g))"
  by (auto simp: load_vosk_model_def split: option.splits sum.splits)

text \<open>
  C5 as stated fails: called again after a successful load, \<open>load_vosk_model\<close> constructs
  the model again, replaces the handle and schedules its four callbacks; called after a
  failed load, it can still load the model.
\<close>

theorem second_load_is_not_a_noop:
  "load_vosk_model (Some (construct_ok 2)) loaded_globals =
     (\<lparr>vosk_model = Some 2, is_vosk_loaded = True\<rparr>,
      [Configure_persistent ''Loading offline voice recognition model...'',
       Start_progress, Stop_progress,
       Configure_persistent ''Offline loaded | Online available'']) \<and>
   load_calls [Some (construct_fail ''no model folder''), Some (construct_ok 2)] initial_globals
     = \<lparr>vosk_model = Some 2, is_vosk_loaded = True\<rparr>"
  by (simp add: load_vosk_model_def construct_ok_def construct_fail_def loaded_globals_def
      initial_globals_def)

text \<open>
  C5, as the code has it: every call with Vosk installed runs the constructor and takes
  its outcome, whatever the state (a model is stored and the flag set, or an exception
  leaves the state as it was), and schedules callbacks; over any sequence of calls the
  flag, once set, stays set, and a loaded model stays loaded.
\<close>

theorem every_load_call_attempts_and_ready_stays:
  "(construct model_path = Inr m \<longrightarrow>
      fst (load_vosk_model (Some construct) g) = g\<lparr>vosk_model := Some m, is_vosk_loaded := True\<rparr>) \<and>
   (construct model_path = Inl e \<longrightarrow> fst (load_vosk_model (Some construct) g) = g) \<and>
   snd (load_vosk_model (Some construct) g) \<noteq> [] \<and>
   (ready g \<longrightarrow> ready (load_calls vs g)) \<and>
   (is_vosk_loaded g \<longrightarrow> is_vosk_loaded (load_calls vs g))"
proof (intro conjI impI)
  show "ready g \<Longrightarrow> ready (load_calls vs g)"
    by (induction vs arbitrary: g) (simp_all add: ready_load_vosk_model)
  show "is_vosk_loaded g \<Longrightarrow> is_vosk_loaded (load_calls vs g)"
    by (induction vs arbitrary: g) (simp_all add: loaded_load_vosk_model)
qed (auto simp: load_vosk_model_def split: sum.splits)

text \<open>The theorem at a loaded state, followed by a failing call, a call without Vosk and a working call.\<close>

theorem every_load_call_attempts_and_ready_stays_witness:
  "construct_ok 2 model_path = Inr 2 \<and>
   construct_fail ''no model folder'' model_path = Inl (Exception ''no model folder'') \<and>
   ready loaded_globals \<and> is_vosk_loaded loaded_globals \<and>
   fst (load_vosk_model (Some (construct_ok 2)) loaded_globals)
     = loaded_globals\<lparr>vosk_model := Some 2, is_vosk_loaded := True\<rparr> \<and>
   fst (load_vosk_model (Some (construct_fail ''no model folder'')) loaded_globals)
     = loaded_globals \<and>
   ready (load_calls [Some (construct_fail ''no model folder''), None, Some (construct_ok 2)]
            loaded_globals) \<and>
   is_vosk_loaded
     (load_calls [Some (construct_fail ''no model folder''), None, Some (construct_ok 2)]
        loaded_globals)"
proof -
  have h1: "construct_ok 2 model_path = Inr 2" by (simp add: construct_ok_def)
  have h2: "ready loaded_globals" by (simp add: ready_def loaded_globals_def)
  have h3: "construct_fail ''no model folder'' model_path = Inl (Exception ''no model folder'')"
    by (simp add: construct_fail_def)
  have h4: "is_vosk_loaded loaded_globals" by (simp add: loaded_globals_def)
  note w = every_load_call_attempts_and_ready_stays
    [of "construct_ok 2" 2 loaded_globals _
        "[Some (construct_fail ''no model folder''), None, Some (construct_ok 2)]"]
  note v = every_load_call_attempts_and_ready_stays
    [of "construct_fail ''no model folder''" _ loaded_globals "Exception ''no model folder''" "[]"]
  from w v h1 h2 h3 h4 show ?thesis by blast
qed

end
